theory Spec2Isabelle
  imports Main
begin

section \<open>JavaScript values used by the provider\<close>

text \<open>
  The values that travel through \<open>provider.ts\<close>: request ids, results, the cached
  account and network. The provider never computes with a number; it only tests it for
  truth and uses it as a property key. So a number is carried as the text JavaScript
  prints for it (\<open>1\<close>, \<open>-7\<close>, \<open>0.5\<close>, \<open>1e+21\<close>, \<open>NaN\<close>; both zeros print as \<open>0\<close>), which
  is exact for every number. Objects other than arrays do not occur as ids or results
  in this development.
\<close>

datatype jsval =
    JUndefined
  | JNull
  | JBool bool
  | JNum string
  | JStr string
  | JArr "jsval list"

datatype error =
    ApiKeyMissing
  | BothNodeOptions
  | UnsupportedSync string
  | UserDenied
  | TypeError
  | Thrown

text \<open>
  Truthiness, as used by \<open>if (id)\<close> and \<open>account ? [account] : []\<close>: the numbers that
  are not truthy are the zeros and NaN.
\<close>

fun truthy :: "jsval \<Rightarrow> bool" where
  "truthy JUndefined = False"
| "truthy JNull = False"
| "truthy (JBool b) = b"
| "truthy (JNum n) = (n \<noteq> ''0'' \<and> n \<noteq> ''NaN'')"
| "truthy (JStr s) = (s \<noteq> [])"
| "truthy (JArr xs) = True"

text \<open>
  An optional string option of the constructor (\<open>opts.apiKey\<close>, \<open>opts.infuraApiKey\<close>,
  \<open>opts.providerNodeUrl\<close>): absent is \<open>None\<close>; it is truthy when present and not the
  empty string.
\<close>

definition provided :: "string option \<Rightarrow> bool" where
  "provided v = (case v of None \<Rightarrow> False | Some s \<Rightarrow> s \<noteq> [])"

text \<open>
  \<open>result[0]\<close>: reading index 0 of undefined or null throws a TypeError, of an array
  gives its first element (undefined when empty), of a string its first character, of a
  number or boolean undefined.
\<close>

fun index0 :: "jsval \<Rightarrow> error + jsval" where
  "index0 JUndefined = Inl TypeError"
| "index0 JNull = Inl TypeError"
| "index0 (JBool b) = Inr JUndefined"
| "index0 (JNum n) = Inr JUndefined"
| "index0 (JStr s) = Inr (case s of [] \<Rightarrow> JUndefined | c # cs \<Rightarrow> JStr [c])"
| "index0 (JArr xs) = Inr (case xs of [] \<Rightarrow> JUndefined | v # vs \<Rightarrow> v)"

text \<open>
  \<open>this.requests[id]\<close> turns the id into a property key, its string form: the number 1
  and the string "1" name the same property. An array prints its elements separated by
  commas, with nothing for null and undefined.
\<close>

fun join_comma :: "string list \<Rightarrow> string" where
  "join_comma [] = []"
| "join_comma [x] = x"
| "join_comma (x # y # ys) = x @ '','' @ join_comma (y # ys)"

fun to_key :: "jsval \<Rightarrow> string" where
  "to_key JUndefined = ''undefined''"
| "to_key JNull = ''null''"
| "to_key (JBool b) = (if b then ''true'' else ''false'')"
| "to_key (JNum n) = n"
| "to_key (JStr s) = s"
| "to_key (JArr xs) =
     join_comma (map (\<lambda>v. case v of JUndefined \<Rightarrow> [] | JNull \<Rightarrow> [] | _ \<Rightarrow> to_key v) xs)"

section \<open>Data of the provider\<close>

text \<open>The JSON-RPC request handed to \<open>send\<close> and \<open>sendAsync\<close> (type \<open>Payload\<close>).\<close>

record Payload =
  id_p :: jsval
  jsonrpc_p :: jsval
  method_p :: string
  params_p :: "jsval list"

text \<open>
  \<open>evt.data.response\<close>, and the object \<open>send\<close> returns: \<open>{id, jsonrpc, result}\<close>, with
  the \<open>address\<close> the login notification reads. A property that is absent is
  \<open>JUndefined\<close>.
\<close>

record response =
  id_r :: jsval
  jsonrpc_r :: jsval
  result :: jsval
  address :: jsval

text \<open>
  A callback is a function of the caller. The provider holds it by name: \<open>Identity\<close> is
  the provider's own arrow function \<open>(_) => _\<close>, \<open>Cb n\<close> a function the caller passed
  in. What a caller's function does when it is called is given separately, see
  \<open>behaviour\<close> below.
\<close>

datatype callback = Identity | Cb nat

text \<open>The \<open>{ payload, cb }\<close> objects held by \<open>queue\<close> and \<open>requests\<close>.\<close>

record item =
  payload :: Payload
  cb :: callback

text \<open>
  What the provider does to the outside, in program order: a call of
  \<open>sendPostMessage\<close> (the message is handed to the \<open>elements\<close> promise, whose \<open>then\<close>
  callbacks run in the order they were added), a call of a completion callback with its
  \<open>(error, response)\<close> arguments, a call of a subscriber with the address, and showing or
  hiding the frame. \<open>Stored k\<close> marks the assignment \<open>this.requests[k] = ...\<close>, so that
  the order of sends and registrations can be read off the log.
\<close>

datatype effect =
    PostMessage string Payload
  | Stored string
  | Invoke callback "error option" "response option"
  | Notify callback jsval
  | ShowIframe
  | HideIframe

record app_options =
  sdkVersion_a :: string
  network_a :: string
  apiKey_a :: "string option"
  infuraApiKey_a :: "string option"
  providerNodeUrl_a :: "string option"

record PortisProvider =
  portisClient :: string
  requests :: "string \<rightharpoonup> item"
  queue :: "item list"
  iframeReady :: bool
  account :: jsval
  network :: jsval
  isPortis :: bool
  referrerAppOptions :: app_options
  events :: "(string \<times> callback) list"
  log :: "effect list"

text \<open>
  The arguments a callback is called with: \<open>cb(null, response)\<close> and \<open>cb(error)\<close> for a
  completion callback, the object with the address for a subscriber.
\<close>

datatype args = Completion "error option" "response option" | LoginEvent jsval

text \<open>
  What a caller's function does when called: it may call back into the provider through
  its public methods, and it returns or throws. As far as the provider's fields go,
  every public method is one of two: \<open>sendAsync\<close> (\<open>send\<close> of \<open>eth_uninstallFilter\<close>,
  \<open>setDefaultEmail\<close> and \<open>showPortis\<close> are \<open>sendAsync\<close> of a request, the other cases of
  \<open>send\<close> and \<open>isConnected\<close> change nothing) and \<open>on\<close>. \<open>calls\<close> are the calls made, in
  order, before the function returns or throws. The behaviour may depend on the
  provider as it is at the call.
\<close>

datatype call = SendAsync Payload callback | On string callback

record reaction =
  calls :: "call list"
  throws :: bool

type_synonym behaviour = "callback \<Rightarrow> args \<Rightarrow> PortisProvider \<Rightarrow> reaction"

record opts =
  apiKey :: "string option"
  network_o :: "string option"
  infuraApiKey :: "string option"
  providerNodeUrl :: "string option"

text \<open>
  The host page as the constructor sees it. \<open>isLocalhost\<close> is the result of the helper
  of that name in \<open>./utils\<close>; \<open>frames\<close> are the iframes appended to the document, each
  with the options encoded in its address; \<open>load_listeners\<close> are the frame creations
  waiting for the \<open>load\<close> event; \<open>message_listeners\<close> counts the handlers installed by
  \<open>listen\<close>.
\<close>

record page =
  isLocalhost :: bool
  readyState :: string
  frames :: "(string \<times> app_options) list"
  load_listeners :: "(string \<times> app_options) list"
  message_listeners :: nat

definition sdkVersion :: string where
  "sdkVersion = ''1.2.9''"

definition PT_RESPONSE :: string where "PT_RESPONSE = ''PT_RESPONSE''"
definition PT_HANDLE_REQUEST :: string where "PT_HANDLE_REQUEST = ''PT_HANDLE_REQUEST''"
definition PT_GREEN_LIGHT :: string where "PT_GREEN_LIGHT = ''PT_GREEN_LIGHT''"
definition PT_SHOW_IFRAME :: string where "PT_SHOW_IFRAME = ''PT_SHOW_IFRAME''"
definition PT_HIDE_IFRAME :: string where "PT_HIDE_IFRAME = ''PT_HIDE_IFRAME''"
definition PT_USER_DENIED :: string where "PT_USER_DENIED = ''PT_USER_DENIED''"
definition PT_USER_LOGGED_IN :: string where "PT_USER_LOGGED_IN = ''PT_USER_LOGGED_IN''"

definition SET_DEFAULT_EMAIL :: string where "SET_DEFAULT_EMAIL = ''SET_DEFAULT_EMAIL''"
definition SHOW_PORTIS :: string where "SHOW_PORTIS = ''SHOW_PORTIS''"

lemmas postMessages_defs =
  PT_RESPONSE_def PT_HANDLE_REQUEST_def PT_GREEN_LIGHT_def PT_SHOW_IFRAME_def
  PT_HIDE_IFRAME_def PT_USER_DENIED_def PT_USER_LOGGED_IN_def

section \<open>Construction\<close>

definition createIframe :: "string \<Rightarrow> app_options \<Rightarrow> page \<Rightarrow> page" where
  "createIframe client cfg pg =
     (if readyState pg \<in> set [''loaded'', ''interactive'', ''complete'']
      then pg\<lparr>frames := frames pg @ [(client, cfg)]\<rparr>
      else pg\<lparr>load_listeners := load_listeners pg @ [(client, cfg)]\<rparr>)"

definition constructor :: "opts \<Rightarrow> page \<Rightarrow> (error + PortisProvider) \<times> page" where
  "constructor os pg =
     (if \<not> isLocalhost pg \<and> \<not> provided (apiKey os) then (Inl ApiKeyMissing, pg)
      else if provided (infuraApiKey os) \<and> provided (providerNodeUrl os)
      then (Inl BothNodeOptions, pg)
      else
        let cfg = \<lparr>sdkVersion_a = sdkVersion,
                   network_a = (case network_o os of
                                  None \<Rightarrow> ''mainnet''
                                | Some n \<Rightarrow> if n = [] then ''mainnet'' else n),
                   apiKey_a = apiKey os,
                   infuraApiKey_a = infuraApiKey os,
                   providerNodeUrl_a = providerNodeUrl os\<rparr>;
            this = \<lparr>portisClient = ''https://app.portis.io'',
                    requests = Map.empty,
                    queue = [],
                    iframeReady = False,
                    account = JNull,
                    network = JNull,
                    isPortis = True,
                    referrerAppOptions = cfg,
                    events = [],
                    log = []\<rparr>;
            pg1 = createIframe (portisClient this) cfg pg
        in (Inr this, pg1\<lparr>message_listeners := Suc (message_listeners pg1)\<rparr>))"

section \<open>Queue and pending requests\<close>

definition sendPostMessage :: "string \<Rightarrow> Payload \<Rightarrow> PortisProvider \<Rightarrow> PortisProvider" where
  "sendPostMessage msgType p s = s\<lparr>log := log s @ [PostMessage msgType p]\<rparr>"

function dequeue :: "PortisProvider \<Rightarrow> PortisProvider" where
  "dequeue s =
     (case queue s of
        [] \<Rightarrow> s
      | it # rest \<Rightarrow>
          let s1 = s\<lparr>queue := rest\<rparr>;
              s2 = sendPostMessage PT_HANDLE_REQUEST (payload it) s1;
              k = to_key (id_p (payload it));
              s3 = s2\<lparr>requests := (requests s2)(k \<mapsto> \<lparr>payload = payload it, cb = cb it\<rparr>),
                      log := log s2 @ [Stored k]\<rparr>
          in dequeue s3)"
  by pat_completeness auto
termination
  by (relation "measure (\<lambda>s. length (queue s))") (auto simp: sendPostMessage_def)

declare dequeue.simps [simp del]

definition enqueue :: "Payload \<Rightarrow> callback \<Rightarrow> PortisProvider \<Rightarrow> PortisProvider" where
  "enqueue p c s =
     (let s1 = s\<lparr>queue := queue s @ [\<lparr>payload = p, cb = c\<rparr>]\<rparr>
      in if iframeReady s1 then dequeue s1 else s1)"

section \<open>The public entry points\<close>

definition sendAsync :: "Payload \<Rightarrow> callback \<Rightarrow> PortisProvider \<Rightarrow> PortisProvider" where
  "sendAsync p c s = enqueue p c s"

text \<open>The object \<open>{ id: payload.id, jsonrpc: payload.jsonrpc, result: result }\<close>.\<close>

definition reply :: "Payload \<Rightarrow> jsval \<Rightarrow> response" where
  "reply p v = \<lparr>id_r = id_p p, jsonrpc_r = jsonrpc_p p, result = v, address = JUndefined\<rparr>"

definition send :: "Payload \<Rightarrow> PortisProvider \<Rightarrow> (error + response) \<times> PortisProvider" where
  "send p s =
     (if method_p p = ''eth_accounts''
      then (Inr (reply p (if truthy (account s) then JArr [account s] else JArr [])), s)
      else if method_p p = ''eth_coinbase'' then (Inr (reply p (account s)), s)
      else if method_p p = ''net_version'' then (Inr (reply p (network s)), s)
      else if method_p p = ''eth_uninstallFilter''
      then (Inr (reply p (JBool True)), sendAsync p Identity s)
      else (Inl (UnsupportedSync (method_p p)), s))"

definition isConnected :: "PortisProvider \<Rightarrow> bool" where
  "isConnected s = True"

text \<open>\<open>rid\<close> is the value \<open>randomId()\<close> of \<open>./utils\<close> returns at this call.\<close>

definition sendGenericPayload ::
  "jsval \<Rightarrow> string \<Rightarrow> jsval list \<Rightarrow> callback \<Rightarrow> PortisProvider \<Rightarrow> PortisProvider" where
  "sendGenericPayload rid m ps c s =
     enqueue \<lparr>id_p = rid, jsonrpc_p = JStr ''2.0'', method_p = m, params_p = ps\<rparr> c s"

definition setDefaultEmail :: "jsval \<Rightarrow> string \<Rightarrow> PortisProvider \<Rightarrow> PortisProvider" where
  "setDefaultEmail rid email s = sendGenericPayload rid SET_DEFAULT_EMAIL [JStr email] Identity s"

definition showPortis :: "jsval \<Rightarrow> callback \<Rightarrow> PortisProvider \<Rightarrow> PortisProvider" where
  "showPortis rid c s = sendGenericPayload rid SHOW_PORTIS [] c s"

definition on :: "string \<Rightarrow> callback \<Rightarrow> PortisProvider \<Rightarrow> PortisProvider" where
  "on eventName c s = s\<lparr>events := events s @ [(eventName, c)]\<rparr>"

definition showIframe :: "PortisProvider \<Rightarrow> PortisProvider" where
  "showIframe s = s\<lparr>log := log s @ [ShowIframe]\<rparr>"

definition hideIframe :: "PortisProvider \<Rightarrow> PortisProvider" where
  "hideIframe s = s\<lparr>log := log s @ [HideIframe]\<rparr>"

section \<open>Calling a callback\<close>

fun perform :: "call \<Rightarrow> PortisProvider \<Rightarrow> PortisProvider" where
  "perform (SendAsync p c) s = sendAsync p c s"
| "perform (On eventName c) s = on eventName c s"

fun called :: "callback \<Rightarrow> args \<Rightarrow> effect" where
  "called c (Completion err resp) = Invoke c err resp"
| "called c (LoginEvent v) = Notify c v"

text \<open>\<open>(_) => _\<close> returns its argument; a caller's function does what \<open>env\<close> says.\<close>

definition react :: "behaviour \<Rightarrow> callback \<Rightarrow> args \<Rightarrow> PortisProvider \<Rightarrow> reaction" where
  "react env c a s =
     (case c of Identity \<Rightarrow> \<lparr>calls = [], throws = False\<rparr> | Cb n \<Rightarrow> env c a s)"

text \<open>
  The call \<open>c(...)\<close> made by the provider: the call is logged, the calls the function
  makes back into the provider are performed in order, and the result says whether the
  function threw, together with the provider as the function left it.
\<close>

definition invoke ::
  "behaviour \<Rightarrow> callback \<Rightarrow> args \<Rightarrow> PortisProvider \<Rightarrow> bool \<times> PortisProvider" where
  "invoke env c a s =
     (let r = react env c a s
      in (throws r, fold perform (calls r) (s\<lparr>log := log s @ [called c a]\<rparr>)))"

section \<open>The message handler installed by listen\<close>

text \<open>
  \<open>evt.data\<close>: \<open>NoData\<close> is null or undefined (reading \<open>msgType\<close> of it throws); otherwise
  the message type and \<open>evt.data.response\<close>, \<open>None\<close> when that is absent.
\<close>

datatype evdata = NoData | Data string "response option"

record message_event =
  origin :: string
  data :: evdata

text \<open>
  Each case of the switch returns the exception that left the handler, if any, and the
  provider as it is at that moment: an exception does not undo what was done before it.
  There is no \<open>try\<close> in the handler, so an exception thrown by a callback leaves the
  handler at that point (\<open>Thrown\<close>).
\<close>

text \<open>
  The response case reads \<open>this.requests[id]\<close> for the call of the callback and again,
  after the callback has run, for the tests of the method.
\<close>

definition on_PT_RESPONSE ::
  "behaviour \<Rightarrow> response option \<Rightarrow> PortisProvider \<Rightarrow> error option \<times> PortisProvider" where
  "on_PT_RESPONSE env resp s =
     (case resp of
        None \<Rightarrow> (Some TypeError, s)
      | Some r \<Rightarrow>
          (case requests s (to_key (id_r r)) of
             None \<Rightarrow> (Some TypeError, s)
           | Some e \<Rightarrow>
               (case invoke env (cb e) (Completion None (Some r)) s of
                  (True, s1) \<Rightarrow> (Some Thrown, s1)
                | (False, s1) \<Rightarrow>
                    (case requests s1 (to_key (id_r r)) of
                       None \<Rightarrow> (Some TypeError, s1)
                     | Some e1 \<Rightarrow>
                         (let m = method_p (payload e1)
                          in (case (if m = ''eth_accounts'' \<or> m = ''eth_coinbase''
                                    then (case index0 (result r) of
                                            Inl err \<Rightarrow> Inl err
                                          | Inr v \<Rightarrow> Inr (s1\<lparr>account := v\<rparr>))
                                    else Inr s1) of
                                Inl err \<Rightarrow> (Some err, s1)
                              | Inr s2 \<Rightarrow>
                                  (None, dequeue (if m = ''net_version''
                                                  then s2\<lparr>network := result r\<rparr>
                                                  else s2))))))))"

text \<open>
  \<open>this.queue.forEach(item => item.cb(new Error(...)))\<close>: \<open>forEach\<close> fixes the number \<open>n\<close>
  of rounds when it starts and in round \<open>i\<close> reads the array as it is then, skipping an
  index that is no longer there. A callback that throws ends the loop.
\<close>

function forEach_denied ::
  "behaviour \<Rightarrow> nat \<Rightarrow> nat \<Rightarrow> PortisProvider \<Rightarrow> bool \<times> PortisProvider" where
  "forEach_denied env n i s =
     (if i < n
      then (if i < length (queue s)
            then (case invoke env (cb (queue s ! i)) (Completion (Some UserDenied) None) s of
                    (True, s1) \<Rightarrow> (True, s1)
                  | (False, s1) \<Rightarrow> forEach_denied env n (Suc i) s1)
            else forEach_denied env n (Suc i) s)
      else (False, s))"
  by pat_completeness auto
termination
  by (relation "measure (\<lambda>(env, n, i, s). n - i)") auto

declare forEach_denied.simps [simp del]

definition on_PT_USER_DENIED ::
  "behaviour \<Rightarrow> response option \<Rightarrow> PortisProvider \<Rightarrow> error option \<times> PortisProvider" where
  "on_PT_USER_DENIED env resp s =
     (let i = (case resp of None \<Rightarrow> JNull | Some r \<Rightarrow> id_r r)
      in if truthy i
         then (case requests s (to_key i) of
                 None \<Rightarrow> (Some TypeError, s)
               | Some e \<Rightarrow>
                   (case invoke env (cb e) (Completion (Some UserDenied) None) s of
                      (True, s1) \<Rightarrow> (Some Thrown, s1)
                    | (False, s1) \<Rightarrow> (None, dequeue s1)))
         else (case forEach_denied env (length (queue s)) 0 s of
                 (True, s1) \<Rightarrow> (Some Thrown, s1)
               | (False, s1) \<Rightarrow> (None, dequeue s1)))"

text \<open>
  \<open>this.events.filter(...)\<close> is a new array, so the loop over it is a loop over a list;
  \<open>evt.data.response.address\<close> is read in each round.
\<close>

fun forEach_login ::
  "behaviour \<Rightarrow> response option \<Rightarrow> (string \<times> callback) list \<Rightarrow> PortisProvider
     \<Rightarrow> error option \<times> PortisProvider" where
  "forEach_login env resp [] s = (None, s)"
| "forEach_login env resp (ev # evs) s =
     (case resp of
        None \<Rightarrow> (Some TypeError, s)
      | Some r \<Rightarrow>
          (case invoke env (snd ev) (LoginEvent (address r)) s of
             (True, s1) \<Rightarrow> (Some Thrown, s1)
           | (False, s1) \<Rightarrow> forEach_login env resp evs s1))"

definition on_PT_USER_LOGGED_IN ::
  "behaviour \<Rightarrow> response option \<Rightarrow> PortisProvider \<Rightarrow> error option \<times> PortisProvider" where
  "on_PT_USER_LOGGED_IN env resp s =
     forEach_login env resp (filter (\<lambda>ev. fst ev = ''login'') (events s)) s"

definition listen ::
  "behaviour \<Rightarrow> message_event \<Rightarrow> PortisProvider \<Rightarrow> error option \<times> PortisProvider" where
  "listen env evt s =
     (if origin evt = portisClient s
      then (case data evt of
              NoData \<Rightarrow> (Some TypeError, s)
            | Data msgType resp \<Rightarrow>
                if msgType = PT_GREEN_LIGHT then (None, dequeue (s\<lparr>iframeReady := True\<rparr>))
                else if msgType = PT_RESPONSE then on_PT_RESPONSE env resp s
                else if msgType = PT_SHOW_IFRAME then (None, showIframe s)
                else if msgType = PT_HIDE_IFRAME then (None, hideIframe s)
                else if msgType = PT_USER_DENIED then on_PT_USER_DENIED env resp s
                else if msgType = PT_USER_LOGGED_IN then on_PT_USER_LOGGED_IN env resp s
                else (None, s))
      else (None, s))"

section \<open>Vocabulary of the statements\<close>

text \<open>
  What one round of \<open>dequeue\<close> does for an item: the message is handed over, then the
  item is stored in \<open>requests\<close> under the key of its id.
\<close>

definition send_and_store :: "item \<Rightarrow> effect list" where
  "send_and_store it =
     [PostMessage PT_HANDLE_REQUEST (payload it), Stored (to_key (id_p (payload it)))]"

definition store :: "item \<Rightarrow> (string \<rightharpoonup> item) \<Rightarrow> (string \<rightharpoonup> item)" where
  "store it m = m(to_key (id_p (payload it)) \<mapsto> \<lparr>payload = payload it, cb = cb it\<rparr>)"

text \<open>The call \<open>item.cb(new Error('User denied transaction signature.'))\<close>.\<close>

definition denial :: args where
  "denial = Completion (Some UserDenied) None"

definition denied :: "item \<Rightarrow> effect" where
  "denied it = Invoke (cb it) (Some UserDenied) None"

text \<open>The requests handed to the frame, and the completion callbacks called, in order.\<close>

fun posted :: "effect list \<Rightarrow> Payload list" where
  "posted [] = []"
| "posted (PostMessage m p # es) = p # posted es"
| "posted (e # es) = posted es"

fun invoked :: "effect list \<Rightarrow> effect list" where
  "invoked [] = []"
| "invoked (Invoke c err resp # es) = Invoke c err resp # invoked es"
| "invoked (e # es) = invoked es"

text \<open>The requests sent so far followed by those still waiting.\<close>

definition pipeline :: "PortisProvider \<Rightarrow> Payload list" where
  "pipeline s = posted (log s) @ map payload (queue s)"

definition pending :: "PortisProvider \<Rightarrow> string \<Rightarrow> bool" where
  "pending s k \<longleftrightarrow> requests s k \<noteq> None"

definition settled :: "PortisProvider \<Rightarrow> item \<Rightarrow> bool" where
  "settled s it \<longleftrightarrow> it \<in> set (queue s) \<or> pending s (to_key (id_p (payload it)))"

text \<open>
  \<open>extends s s'\<close>: what calls of \<open>sendAsync\<close> and \<open>on\<close>, and entries of the log that are
  not sends, can have made of \<open>s\<close>.
\<close>

definition extends :: "PortisProvider \<Rightarrow> PortisProvider \<Rightarrow> bool" where
  "extends s s' \<longleftrightarrow>
     iframeReady s' = iframeReady s \<and> account s' = account s \<and> network s' = network s
     \<and> portisClient s' = portisClient s
     \<and> (\<forall>k. pending s k \<longrightarrow> pending s' k)
     \<and> (\<exists>rest. log s' = log s @ rest)
     \<and> (\<exists>extra. pipeline s' = pipeline s @ extra)
     \<and> (\<forall>it \<in> set (queue s). settled s' it)
     \<and> (\<not> iframeReady s \<longrightarrow>
          (\<exists>new. queue s' = queue s @ new) \<and> posted (log s') = posted (log s)
          \<and> requests s' = requests s)
     \<and> (queue s = [] \<and> iframeReady s \<longrightarrow> queue s' = [])"

text \<open>
  What a run of the handler can have made of \<open>s\<close>. \<open>drained\<close>: the handler reached
  \<open>dequeue\<close>, so the queue is empty and every item that was queued has been sent, in
  order, and stored. \<open>untouched\<close>: the handler was left before \<open>dequeue\<close>, so, while the
  frame is not ready, nothing was sent and the queue has at most grown.
\<close>

definition drained :: "PortisProvider \<Rightarrow> PortisProvider \<Rightarrow> bool" where
  "drained s s' \<longleftrightarrow>
     queue s' = []
     \<and> (\<exists>extra. posted (log s') = posted (log s) @ map payload (queue s) @ extra)
     \<and> (\<forall>it \<in> set (queue s). pending s' (to_key (id_p (payload it))))
     \<and> iframeReady s' = iframeReady s
     \<and> (\<forall>k. pending s k \<longrightarrow> pending s' k)"

definition untouched :: "PortisProvider \<Rightarrow> PortisProvider \<Rightarrow> bool" where
  "untouched s s' \<longleftrightarrow>
     (\<not> iframeReady s \<longrightarrow>
        posted (log s') = posted (log s) \<and> (\<exists>new. queue s' = queue s @ new))
     \<and> (\<forall>k. pending s k \<longrightarrow> pending s' k)
     \<and> iframeReady s' = iframeReady s
     \<and> (queue s = [] \<and> iframeReady s \<longrightarrow> queue s' = [])"

text \<open>A sequence of \<open>enqueue\<close> calls, first to last.\<close>

definition enqueue_all :: "(Payload \<times> callback) list \<Rightarrow> PortisProvider \<Rightarrow> PortisProvider" where
  "enqueue_all xs s = fold (\<lambda>x. enqueue (fst x) (snd x)) xs s"

subsection \<open>Concrete inputs\<close>

text \<open>
  Three callers: one whose functions return and do nothing; one whose functions throw
  when handed an error and return otherwise, as in the \<open>sendAsync\<close> example of the
  README (\<open>if (err) { throw new Error(err) }\<close>); and one whose functions send request 1
  again, as \<open>personal_sign\<close>, whenever they are called.
\<close>

definition quiet :: behaviour where
  "quiet c a s = \<lparr>calls = [], throws = False\<rparr>"

definition strict :: behaviour where
  "strict c a s =
     (case a of
        Completion (Some err) resp \<Rightarrow> \<lparr>calls = [], throws = True\<rparr>
      | _ \<Rightarrow> \<lparr>calls = [], throws = False\<rparr>)"

definition ex_opts :: opts where
  "ex_opts = \<lparr>apiKey = Some ''k1'', network_o = Some ''ropsten'', infuraApiKey = None,
              providerNodeUrl = None\<rparr>"

definition ex_page :: page where
  "ex_page = \<lparr>isLocalhost = False, readyState = ''complete'', frames = [],
              load_listeners = [], message_listeners = 0\<rparr>"

text \<open>The provider \<open>new PortisProvider({apiKey: 'k1', network: 'ropsten'})\<close> builds.\<close>

definition ex_provider :: PortisProvider where
  "ex_provider =
     \<lparr>portisClient = ''https://app.portis.io'',
      requests = Map.empty,
      queue = [],
      iframeReady = False,
      account = JNull,
      network = JNull,
      isPortis = True,
      referrerAppOptions =
        \<lparr>sdkVersion_a = ''1.2.9'', network_a = ''ropsten'', apiKey_a = Some ''k1'',
         infuraApiKey_a = None, providerNodeUrl_a = None\<rparr>,
      events = [],
      log = []\<rparr>"

definition ex_request :: "string \<Rightarrow> string \<Rightarrow> Payload" where
  "ex_request n m = \<lparr>id_p = JNum n, jsonrpc_p = JStr ''2.0'', method_p = m, params_p = []\<rparr>"

definition ex_response :: "string \<Rightarrow> jsval \<Rightarrow> response" where
  "ex_response n v = \<lparr>id_r = JNum n, jsonrpc_r = JStr ''2.0'', result = v,
                      address = JUndefined\<rparr>"

definition ex_event :: "string \<Rightarrow> response option \<Rightarrow> message_event" where
  "ex_event m resp = \<lparr>origin = ''https://app.portis.io'', data = Data m resp\<rparr>"

definition again :: behaviour where
  "again c a s = \<lparr>calls = [SendAsync (ex_request ''1'' ''personal_sign'') c], throws = False\<rparr>"

text \<open>
  Two providers reached through the entry points: one request sent and pending after
  the readiness signal; and, before any readiness signal, one request pending (a denial
  without id drained it) with a second one waiting in the queue.
\<close>

definition ex_pending :: PortisProvider where
  "ex_pending =
     snd (listen quiet (ex_event PT_GREEN_LIGHT None)
            (enqueue (ex_request ''1'' ''eth_accounts'') (Cb 1) ex_provider))"

definition ex_backlog :: PortisProvider where
  "ex_backlog =
     enqueue (ex_request ''2'' ''net_version'') (Cb 2)
       (snd (listen quiet (ex_event PT_USER_DENIED None)
               (enqueue (ex_request ''1'' ''eth_accounts'') (Cb 1) ex_provider)))"

text \<open>
  Two requests waiting before any readiness signal, and a response to request 1 that
  carries two accounts.
\<close>

definition ex_two_queued :: PortisProvider where
  "ex_two_queued =
     enqueue_all [(ex_request ''1'' ''eth_accounts'', Cb 1),
                  (ex_request ''2'' ''net_version'', Cb 2)] ex_provider"

definition ex_accounts :: response where
  "ex_accounts = ex_response ''1'' (JArr [JStr ''0xabc'', JStr ''0xdef''])"

definition ex_opts_both :: opts where
  "ex_opts_both = \<lparr>apiKey = Some ''k1'', network_o = None, infuraApiKey = Some ''i1'',
                   providerNodeUrl = Some ''http://localhost:8545''\<rparr>"

definition ex_opts_nokey :: opts where
  "ex_opts_nokey = \<lparr>apiKey = None, network_o = None, infuraApiKey = None,
                    providerNodeUrl = None\<rparr>"

lemmas ex_defs = ex_opts_def ex_page_def ex_provider_def ex_request_def ex_response_def
  ex_event_def

section \<open>Properties of the queue\<close>

text \<open>
  \<open>dequeue\<close> in closed form: the queue is emptied, every item is sent and stored in
  queue order, and no other field changes. There is no test of \<open>iframeReady\<close>.
\<close>

lemma dequeue_eq:
  "dequeue s = s\<lparr>queue := [],
                 requests := fold store (queue s) (requests s),
                 log := log s @ concat (map send_and_store (queue s))\<rparr>"
proof (induction s rule: dequeue.induct)
  case (1 s)
  show ?case
  proof (cases "queue s")
    case Nil
    then show ?thesis by (simp add: dequeue.simps [of s])
  next
    case (Cons it rest)
    show ?thesis
      using "1.IH" [OF Cons refl refl refl refl] Cons
      by (simp add: dequeue.simps [of s] Let_def sendPostMessage_def store_def
          send_and_store_def)
  qed
qed

lemma fold_store_other:
  "k \<notin> (\<lambda>it. to_key (id_p (payload it))) ` set q \<Longrightarrow> fold store q m k = m k"
  by (induction q arbitrary: m) (auto simp: store_def)

lemma fold_store_keeps:
  "m k \<noteq> None \<Longrightarrow> fold store q m k \<noteq> None"
  by (induction q arbitrary: m) (auto simp: store_def)

lemma fold_store_stored:
  "it \<in> set q \<Longrightarrow> fold store q m (to_key (id_p (payload it))) \<noteq> None"
proof (induction q arbitrary: m)
  case Nil
  then show ?case by simp
next
  case (Cons x q)
  show ?case
  proof (cases "it \<in> set q")
    case True
    then show ?thesis using Cons.IH by simp
  next
    case False
    with Cons.prems have "it = x" by simp
    then have "store x m (to_key (id_p (payload it))) \<noteq> None" by (simp add: store_def)
    then show ?thesis using fold_store_keeps [of "store x m"] by simp
  qed
qed

lemma fold_store_last:
  "fold store (q @ [it]) m (to_key (id_p (payload it)))
     = Some \<lparr>payload = payload it, cb = cb it\<rparr>"
  by (simp add: store_def)

lemma constructor_ex: "fst (constructor ex_opts ex_page) = Inr ex_provider"
  by (simp add: constructor_def ex_defs provided_def createIframe_def sdkVersion_def Let_def)

lemma enqueue_not_ready:
  "\<not> iframeReady s \<Longrightarrow> enqueue p c s = s\<lparr>queue := queue s @ [\<lparr>payload = p, cb = c\<rparr>]\<rparr>"
  by (simp add: enqueue_def Let_def)

lemma enqueue_all_not_ready:
  "\<not> iframeReady s \<Longrightarrow>
   enqueue_all xs s = s\<lparr>queue := queue s @ map (\<lambda>x. \<lparr>payload = fst x, cb = snd x\<rparr>) xs\<rparr>"
proof (induction xs arbitrary: s)
  case Nil
  then show ?case by (simp add: enqueue_all_def)
next
  case (Cons x xs)
  have "enqueue_all (x # xs) s = enqueue_all xs (enqueue (fst x) (snd x) s)"
    by (simp add: enqueue_all_def)
  also have "\<dots> = enqueue_all xs (s\<lparr>queue := queue s @ [\<lparr>payload = fst x, cb = snd x\<rparr>]\<rparr>)"
    using Cons.prems by (simp add: enqueue_not_ready)
  also have "\<dots> = s\<lparr>queue := queue s @ map (\<lambda>x. \<lparr>payload = fst x, cb = snd x\<rparr>) (x # xs)\<rparr>"
    using Cons.prems by (simp add: Cons.IH)
  finally show ?case .
qed

lemma posted_append [simp]: "posted (xs @ ys) = posted xs @ posted ys"
  by (induction xs rule: posted.induct) simp_all

lemma invoked_append [simp]: "invoked (xs @ ys) = invoked xs @ invoked ys"
  by (induction xs rule: invoked.induct) simp_all

lemma posted_send_and_store [simp]:
  "posted (concat (map send_and_store q)) = map payload q"
  by (induction q) (simp_all add: send_and_store_def)

lemma invoked_send_and_store [simp]:
  "invoked (concat (map send_and_store q)) = []"
  by (induction q) (simp_all add: send_and_store_def)

lemma posted_called [simp]: "posted [called c a] = []"
  by (cases a) simp_all

lemma invoked_map_denied [simp]: "invoked (map denied q) = map denied q"
  by (induction q) (simp_all add: denied_def)

lemma pipeline_dequeue: "pipeline (dequeue s) = pipeline s"
  by (simp add: pipeline_def dequeue_eq)

lemma posted_dequeue: "posted (log (dequeue s)) = pipeline s"
  by (simp add: pipeline_def dequeue_eq)

lemma invoked_dequeue [simp]: "invoked (log (dequeue s)) = invoked (log s)"
  by (simp add: dequeue_eq)

lemma queue_dequeue [simp]: "queue (dequeue s) = []"
  by (simp add: dequeue_eq)

lemma iframeReady_dequeue [simp]: "iframeReady (dequeue s) = iframeReady s"
  by (simp add: dequeue_eq)

lemma account_dequeue [simp]: "account (dequeue s) = account s"
  by (simp add: dequeue_eq)

lemma network_dequeue [simp]: "network (dequeue s) = network s"
  by (simp add: dequeue_eq)

lemma portisClient_dequeue [simp]: "portisClient (dequeue s) = portisClient s"
  by (simp add: dequeue_eq)

lemma pending_dequeue: "pending s k \<Longrightarrow> pending (dequeue s) k"
  using fold_store_keeps [of "requests s" k "queue s"] by (simp add: pending_def dequeue_eq)

lemma stored_dequeue: "it \<in> set (queue s) \<Longrightarrow> pending (dequeue s) (to_key (id_p (payload it)))"
  using fold_store_stored [of it "queue s" "requests s"] by (simp add: pending_def dequeue_eq)

lemma settled_dequeue:
  "settled s it \<Longrightarrow> pending (dequeue s) (to_key (id_p (payload it)))"
  unfolding settled_def using pending_dequeue stored_dequeue by blast

lemma log_dequeue: "\<exists>rest. log (dequeue s) = log s @ rest"
  by (simp add: dequeue_eq)

subsection \<open>What a callback can do\<close>

lemma extends_refl: "extends s s"
  by (simp add: extends_def settled_def)

lemma extends_trans:
  assumes a: "extends s t" and b: "extends t u"
  shows "extends s u"
proof -
  from a b have flags: "iframeReady u = iframeReady s" "account u = account s"
    "network u = network s" "portisClient u = portisClient s"
    by (simp_all add: extends_def)
  from a b have pend: "\<forall>k. pending s k \<longrightarrow> pending u k"
    by (simp add: extends_def)
  from a obtain r1 where r1: "log t = log s @ r1" unfolding extends_def by blast
  from b obtain r2 where r2: "log u = log t @ r2" unfolding extends_def by blast
  from r1 r2 have lg: "\<exists>rest. log u = log s @ rest" by simp
  from a obtain e1 where e1: "pipeline t = pipeline s @ e1" unfolding extends_def by blast
  from b obtain e2 where e2: "pipeline u = pipeline t @ e2" unfolding extends_def by blast
  from e1 e2 have pl: "\<exists>extra. pipeline u = pipeline s @ extra" by simp
  have st: "\<forall>it \<in> set (queue s). settled u it"
  proof
    fix it assume "it \<in> set (queue s)"
    with a have "settled t it" by (simp add: extends_def)
    then show "settled u it"
      using b unfolding settled_def extends_def by blast
  qed
  have nr: "\<not> iframeReady s \<longrightarrow>
          (\<exists>new. queue u = queue s @ new) \<and> posted (log u) = posted (log s)
          \<and> requests u = requests s"
  proof
    assume n: "\<not> iframeReady s"
    with a have nt: "\<not> iframeReady t" by (simp add: extends_def)
    from n a obtain n1 where n1: "queue t = queue s @ n1" unfolding extends_def by blast
    from nt b obtain n2 where n2: "queue u = queue t @ n2" unfolding extends_def by blast
    from n1 n2 have "\<exists>new. queue u = queue s @ new" by simp
    moreover from n nt a b have "posted (log u) = posted (log s)" "requests u = requests s"
      by (simp_all add: extends_def)
    ultimately show "(\<exists>new. queue u = queue s @ new) \<and> posted (log u) = posted (log s)
          \<and> requests u = requests s" by simp
  qed
  have em: "queue s = [] \<and> iframeReady s \<longrightarrow> queue u = []"
    using a b by (simp add: extends_def)
  show ?thesis
    unfolding extends_def using flags pend lg pl st nr em by blast
qed

lemma extends_called: "extends s (s\<lparr>log := log s @ [called c a]\<rparr>)"
  by (simp add: extends_def settled_def pipeline_def pending_def)

lemma extends_on: "extends s (on eventName c s)"
  by (simp add: extends_def on_def settled_def pipeline_def pending_def)

lemma extends_enqueue: "extends s (enqueue p c s)"
proof (cases "iframeReady s")
  case False
  then show ?thesis
    by (simp add: enqueue_not_ready extends_def settled_def pipeline_def pending_def)
next
  case True
  let ?t = "s\<lparr>queue := queue s @ [\<lparr>payload = p, cb = c\<rparr>]\<rparr>"
  have e: "enqueue p c s = dequeue ?t"
    using True by (simp add: enqueue_def Let_def)
  have "\<forall>k. pending s k \<longrightarrow> pending (dequeue ?t) k"
    using pending_dequeue [of ?t] by (simp add: pending_def)
  moreover have "\<exists>rest. log (dequeue ?t) = log s @ rest"
    using log_dequeue [of ?t] by simp
  moreover have "\<exists>extra. pipeline (dequeue ?t) = pipeline s @ extra"
    by (simp add: pipeline_dequeue) (simp add: pipeline_def)
  moreover have "\<forall>it \<in> set (queue s). settled (dequeue ?t) it"
    using stored_dequeue [of _ ?t] by (simp add: settled_def)
  ultimately show ?thesis
    unfolding e extends_def using True by simp
qed

lemma extends_perform: "extends s (perform x s)"
  by (cases x) (simp_all add: sendAsync_def extends_enqueue extends_on)

lemma extends_fold_perform: "extends s (fold perform xs s)"
proof (induction xs arbitrary: s)
  case Nil
  show ?case by (simp add: extends_refl)
next
  case (Cons x xs)
  have "extends s (perform x s)" by (rule extends_perform)
  moreover have "extends (perform x s) (fold perform xs (perform x s))" by (rule Cons.IH)
  ultimately show ?case using extends_trans by simp
qed

lemma extends_invoke: "extends s (snd (invoke env c a s))"
  using extends_trans [OF extends_called extends_fold_perform]
  by (simp add: invoke_def Let_def)

lemma invoked_enqueue [simp]: "invoked (log (enqueue p c s)) = invoked (log s)"
  by (simp add: enqueue_def Let_def)

lemma invoked_perform [simp]: "invoked (log (perform x s)) = invoked (log s)"
  by (cases x) (simp_all add: sendAsync_def on_def)

lemma invoked_fold_perform [simp]: "invoked (log (fold perform xs s)) = invoked (log s)"
  by (induction xs arbitrary: s) simp_all

lemma invoked_invoke:
  "invoked (log (snd (invoke env c (Completion err resp) s)))
     = invoked (log s) @ [Invoke c err resp]"
  by (simp add: invoke_def Let_def)

lemma invoked_invoke_login:
  "invoked (log (snd (invoke env c (LoginEvent v) s))) = invoked (log s)"
  by (simp add: invoke_def Let_def)

lemma fst_invoke: "fst (invoke env c a s) = throws (react env c a s)"
  by (simp add: invoke_def Let_def)

text \<open>
  The public methods that change the provider are calls of the two kinds a callback is
  given: \<open>send\<close> of \<open>eth_uninstallFilter\<close>, \<open>setDefaultEmail\<close> and \<open>showPortis\<close> are
  \<open>sendAsync\<close> of a request, and every other case of \<open>send\<close> changes nothing.
\<close>

lemma public_methods_as_calls:
  "snd (send p s) =
     (if method_p p = ''eth_uninstallFilter'' then perform (SendAsync p Identity) s else s)"
  "setDefaultEmail rid email s =
     perform (SendAsync \<lparr>id_p = rid, jsonrpc_p = JStr ''2.0'', method_p = SET_DEFAULT_EMAIL,
                         params_p = [JStr email]\<rparr> Identity) s"
  "showPortis rid c s =
     perform (SendAsync \<lparr>id_p = rid, jsonrpc_p = JStr ''2.0'', method_p = SHOW_PORTIS,
                         params_p = []\<rparr> c) s"
  by (simp_all add: send_def setDefaultEmail_def showPortis_def sendGenericPayload_def
      sendAsync_def)

lemma log_invoke: "\<exists>rest. log (snd (invoke env c a s)) = log s @ called c a # rest"
proof -
  let ?t = "s\<lparr>log := log s @ [called c a]\<rparr>"
  have "extends ?t (fold perform (calls (react env c a s)) ?t)"
    by (rule extends_fold_perform)
  then obtain rest where "log (fold perform (calls (react env c a s)) ?t) = log ?t @ rest"
    unfolding extends_def by blast
  then show ?thesis by (simp add: invoke_def Let_def)
qed

lemma extends_forEach_denied: "extends s (snd (forEach_denied env n i s))"
proof (induction env n i s rule: forEach_denied.induct)
  case (1 env n i s)
  show ?case
  proof (cases "i < n")
    case False
    then show ?thesis by (simp add: forEach_denied.simps [of env n i s] extends_refl)
  next
    case in_range: True
    show ?thesis
    proof (cases "i < length (queue s)")
      case False
      with in_range "1.IH"(2) show ?thesis
        by (simp add: forEach_denied.simps [of env n i s])
    next
      case True
      obtain threw s1 where inv: "invoke env (cb (queue s ! i)) (Completion (Some UserDenied) None) s
          = (threw, s1)" by (cases "invoke env (cb (queue s ! i)) (Completion (Some UserDenied) None) s")
      have e1: "extends s s1" using extends_invoke [of s env "cb (queue s ! i)" "Completion (Some UserDenied) None"] inv by simp
      show ?thesis
      proof (cases threw)
        case True
        with in_range \<open>i < length (queue s)\<close> inv e1 show ?thesis
          by (simp add: forEach_denied.simps [of env n i s])
      next
        case False
        have "extends s1 (snd (forEach_denied env n (Suc i) s1))"
          using "1.IH"(1) [OF in_range \<open>i < length (queue s)\<close> inv [symmetric]] False by simp
        with e1 have "extends s (snd (forEach_denied env n (Suc i) s1))"
          by (rule extends_trans)
        with in_range \<open>i < length (queue s)\<close> inv False show ?thesis
          by (simp add: forEach_denied.simps [of env n i s])
      qed
    qed
  qed
qed

lemma extends_forEach_login: "extends s (snd (forEach_login env resp evs s))"
proof (induction evs arbitrary: s)
  case Nil
  show ?case by (simp add: extends_refl)
next
  case (Cons ev evs)
  show ?case
  proof (cases resp)
    case None
    then show ?thesis by (simp add: extends_refl)
  next
    case (Some r)
    obtain threw s1 where inv: "invoke env (snd ev) (LoginEvent (address r)) s = (threw, s1)"
      by (cases "invoke env (snd ev) (LoginEvent (address r)) s")
    have e1: "extends s s1"
      using extends_invoke [of s env "snd ev" "LoginEvent (address r)"] inv by simp
    show ?thesis
    proof (cases threw)
      case True
      with Some inv e1 show ?thesis by simp
    next
      case False
      have "extends s1 (snd (forEach_login env resp evs s1))" by (rule Cons.IH)
      with e1 have "extends s (snd (forEach_login env resp evs s1))" by (rule extends_trans)
      with Some inv False show ?thesis by simp
    qed
  qed
qed

lemma forEach_denied_done: "\<not> i < n \<Longrightarrow> forEach_denied env n i s = (False, s)"
  by (simp add: forEach_denied.simps [of env n i s])

lemma forEach_denied_step:
  "i < n \<Longrightarrow> i < length (queue s) \<Longrightarrow>
   forEach_denied env n i s =
     (case invoke env (cb (queue s ! i)) (Completion (Some UserDenied) None) s of
        (True, s1) \<Rightarrow> (True, s1)
      | (False, s1) \<Rightarrow> forEach_denied env n (Suc i) s1)"
  by (simp add: forEach_denied.simps [of env n i s])


subsection \<open>What a run of the handler leaves\<close>

lemma drained_dequeue:
  assumes e: "extends s t"
    and same: "queue t' = queue t" "log t' = log t" "requests t' = requests t"
      "iframeReady t' = iframeReady t"
  shows "drained s (dequeue t')"
proof -
  from e obtain extra where x: "pipeline t = pipeline s @ extra"
    unfolding extends_def by blast
  have "pipeline t' = pipeline t" using same by (simp add: pipeline_def)
  with x have "posted (log (dequeue t')) = posted (log s) @ map payload (queue s) @ extra"
    by (simp add: posted_dequeue) (simp add: pipeline_def)
  moreover have "\<forall>it \<in> set (queue s). pending (dequeue t') (to_key (id_p (payload it)))"
  proof
    fix it assume "it \<in> set (queue s)"
    with e have "settled t it" by (simp add: extends_def)
    then have "settled t' it" using same by (simp add: settled_def pending_def)
    then show "pending (dequeue t') (to_key (id_p (payload it)))" by (rule settled_dequeue)
  qed
  moreover have "iframeReady (dequeue t') = iframeReady s"
    using e same by (simp add: extends_def)
  moreover have "\<forall>k. pending s k \<longrightarrow> pending (dequeue t') k"
  proof (intro allI impI)
    fix k assume "pending s k"
    with e have "pending t k" by (simp add: extends_def)
    then have "pending t' k" using same by (simp add: pending_def)
    then show "pending (dequeue t') k" by (rule pending_dequeue)
  qed
  ultimately show ?thesis
    unfolding drained_def by simp
qed

lemma untouched_extends: "extends s t \<Longrightarrow> untouched s t"
  by (simp add: untouched_def extends_def)

lemma untouched_refl: "untouched s s"
  by (simp add: untouched_def)

lemma on_PT_RESPONSE_outcome:
  "(fst (on_PT_RESPONSE env resp s) = None \<longrightarrow> drained s (snd (on_PT_RESPONSE env resp s)))
   \<and> (fst (on_PT_RESPONSE env resp s) \<noteq> None \<longrightarrow> untouched s (snd (on_PT_RESPONSE env resp s)))"
proof (cases resp)
  case None
  then show ?thesis by (simp add: on_PT_RESPONSE_def untouched_refl)
next
  case (Some r)
  show ?thesis
  proof (cases "requests s (to_key (id_r r))")
    case None
    with \<open>resp = Some r\<close> show ?thesis by (simp add: on_PT_RESPONSE_def untouched_refl)
  next
    case e: (Some e)
    obtain threw s1 where inv: "invoke env (cb e) (Completion None (Some r)) s = (threw, s1)"
      by (cases "invoke env (cb e) (Completion None (Some r)) s")
    have e1: "extends s s1"
      using extends_invoke [of s env "cb e" "Completion None (Some r)"] inv by simp
    have u1: "untouched s s1" using e1 by (simp add: untouched_extends)
    show ?thesis
    proof (cases threw)
      case True
      with \<open>resp = Some r\<close> e inv u1 show ?thesis by (simp add: on_PT_RESPONSE_def)
    next
      case False
      show ?thesis
      proof (cases "requests s1 (to_key (id_r r))")
        case None
        with \<open>resp = Some r\<close> e inv False u1 show ?thesis by (simp add: on_PT_RESPONSE_def)
      next
        case (Some e1')
        have d: "\<And>t'. queue t' = queue s1 \<Longrightarrow> log t' = log s1 \<Longrightarrow> requests t' = requests s1
                   \<Longrightarrow> iframeReady t' = iframeReady s1 \<Longrightarrow> drained s (dequeue t')"
          using drained_dequeue [OF e1] by blast
        show ?thesis
          using \<open>resp = Some r\<close> e inv False Some u1
          by (cases "index0 (result r)") (simp_all add: on_PT_RESPONSE_def Let_def d)
      qed
    qed
  qed
qed

lemma on_PT_USER_DENIED_outcome:
  "(fst (on_PT_USER_DENIED env resp s) = None \<longrightarrow> drained s (snd (on_PT_USER_DENIED env resp s)))
   \<and> (fst (on_PT_USER_DENIED env resp s) \<noteq> None
        \<longrightarrow> untouched s (snd (on_PT_USER_DENIED env resp s)))"
proof (cases "truthy (case resp of None \<Rightarrow> JNull | Some r \<Rightarrow> id_r r)")
  case True
  show ?thesis
  proof (cases "requests s (to_key (case resp of None \<Rightarrow> JNull | Some r \<Rightarrow> id_r r))")
    case None
    with True show ?thesis by (simp add: on_PT_USER_DENIED_def untouched_refl)
  next
    case (Some e)
    obtain threw s1 where inv: "invoke env (cb e) (Completion (Some UserDenied) None) s = (threw, s1)"
      by (cases "invoke env (cb e) (Completion (Some UserDenied) None) s")
    have e1: "extends s s1"
      using extends_invoke [of s env "cb e" "Completion (Some UserDenied) None"] inv by simp
    show ?thesis
      using True Some inv untouched_extends [OF e1] drained_dequeue [OF e1]
      by (cases threw) (simp_all add: on_PT_USER_DENIED_def)
  qed
next
  case False
  obtain threw s1 where f: "forEach_denied env (length (queue s)) 0 s = (threw, s1)"
    by (cases "forEach_denied env (length (queue s)) 0 s")
  have e1: "extends s s1"
    using extends_forEach_denied [of s env "length (queue s)" 0] f by simp
  show ?thesis
    using False f untouched_extends [OF e1] drained_dequeue [OF e1]
    by (cases threw) (simp_all add: on_PT_USER_DENIED_def)
qed

lemma pending_listen:
  assumes k: "pending s k"
  shows "pending (snd (listen env evt s)) k"
proof (cases "origin evt = portisClient s")
  case False
  with k show ?thesis by (simp add: listen_def)
next
  case True
  show ?thesis
  proof (cases "data evt")
    case NoData
    with True k show ?thesis by (simp add: listen_def)
  next
    case (Data m resp)
    have r: "pending (snd (on_PT_RESPONSE env resp s)) k"
      using on_PT_RESPONSE_outcome [of env resp s] k
      by (cases "fst (on_PT_RESPONSE env resp s)") (simp_all add: drained_def untouched_def)
    have d: "pending (snd (on_PT_USER_DENIED env resp s)) k"
      using on_PT_USER_DENIED_outcome [of env resp s] k
      by (cases "fst (on_PT_USER_DENIED env resp s)") (simp_all add: drained_def untouched_def)
    have l: "pending (snd (on_PT_USER_LOGGED_IN env resp s)) k"
      using extends_forEach_login [of s env resp "filter (\<lambda>ev. fst ev = ''login'') (events s)"] k
      by (simp add: on_PT_USER_LOGGED_IN_def extends_def)
    have g: "pending (dequeue (s\<lparr>iframeReady := True\<rparr>)) k"
      using pending_dequeue [of "s\<lparr>iframeReady := True\<rparr>" k] k by (simp add: pending_def)
    have sh: "pending (showIframe s) k" "pending (hideIframe s) k"
      using k by (simp_all add: pending_def showIframe_def hideIframe_def)
    show ?thesis
      using True Data k r d l g sh by (simp add: listen_def)
  qed
qed

lemma invoked_on_PT_RESPONSE:
  assumes e: "requests s (to_key (id_r r)) = Some e"
  shows "invoked (log (snd (on_PT_RESPONSE env (Some r) s)))
           = invoked (log s) @ [Invoke (cb e) None (Some r)]"
proof -
  obtain threw s1 where inv: "invoke env (cb e) (Completion None (Some r)) s = (threw, s1)"
    by (cases "invoke env (cb e) (Completion None (Some r)) s")
  have i1: "invoked (log s1) = invoked (log s) @ [Invoke (cb e) None (Some r)]"
    using invoked_invoke [of env "cb e" None "Some r" s] inv by simp
  show ?thesis
  proof (cases threw)
    case True
    with e inv i1 show ?thesis by (simp add: on_PT_RESPONSE_def)
  next
    case False
    show ?thesis
    proof (cases "requests s1 (to_key (id_r r))")
      case None
      with e inv False i1 show ?thesis by (simp add: on_PT_RESPONSE_def)
    next
      case (Some e1)
      with e inv False i1 show ?thesis
        by (cases "index0 (result r)") (simp_all add: on_PT_RESPONSE_def Let_def)
    qed
  qed
qed

lemma invoked_on_PT_USER_DENIED:
  assumes e: "requests s (to_key (id_r r)) = Some e" and t: "truthy (id_r r)"
  shows "invoked (log (snd (on_PT_USER_DENIED env (Some r) s)))
           = invoked (log s) @ [Invoke (cb e) (Some UserDenied) None]"
proof -
  obtain threw s1 where inv: "invoke env (cb e) (Completion (Some UserDenied) None) s = (threw, s1)"
    by (cases "invoke env (cb e) (Completion (Some UserDenied) None) s")
  have i1: "invoked (log s1) = invoked (log s) @ [Invoke (cb e) (Some UserDenied) None]"
    using invoked_invoke [of env "cb e" "Some UserDenied" None s] inv by simp
  show ?thesis
    using e t inv i1 by (cases threw) (simp_all add: on_PT_USER_DENIED_def)
qed

lemma fold_store_filter:
  "fold store q m k =
     (let its = filter (\<lambda>it. to_key (id_p (payload it)) = k) q
      in if its = [] then m k else Some \<lparr>payload = payload (last its), cb = cb (last its)\<rparr>)"
  by (induction q rule: rev_induct) (simp_all add: store_def Let_def)


text \<open>
  Between messages the queue is empty whenever the frame is ready: this holds of a new
  provider and is kept by \<open>enqueue\<close> and by every run of the handler.
\<close>

lemma ready_empty_constructor:
  "constructor os pg = (Inr s, pg') \<Longrightarrow> \<not> iframeReady s \<and> queue s = []"
  by (auto simp: constructor_def Let_def split: if_splits)

lemma ready_empty_enqueue:
  "iframeReady s \<longrightarrow> queue s = [] \<Longrightarrow>
   iframeReady (enqueue p c s) \<longrightarrow> queue (enqueue p c s) = []"
  by (simp add: enqueue_def Let_def)

lemma ready_empty_listen:
  assumes "iframeReady s \<longrightarrow> queue s = []"
  shows "iframeReady (snd (listen env evt s)) \<longrightarrow> queue (snd (listen env evt s)) = []"
proof (cases "origin evt = portisClient s")
  case False
  with assms show ?thesis by (simp add: listen_def)
next
  case True
  show ?thesis
  proof (cases "data evt")
    case NoData
    with True assms show ?thesis by (simp add: listen_def)
  next
    case (Data m resp)
    have r: "iframeReady (snd (on_PT_RESPONSE env resp s))
              \<longrightarrow> queue (snd (on_PT_RESPONSE env resp s)) = []"
      using on_PT_RESPONSE_outcome [of env resp s] assms
      by (cases "fst (on_PT_RESPONSE env resp s)") (auto simp: drained_def untouched_def)
    have d: "iframeReady (snd (on_PT_USER_DENIED env resp s))
              \<longrightarrow> queue (snd (on_PT_USER_DENIED env resp s)) = []"
      using on_PT_USER_DENIED_outcome [of env resp s] assms
      by (cases "fst (on_PT_USER_DENIED env resp s)") (auto simp: drained_def untouched_def)
    have l: "iframeReady (snd (on_PT_USER_LOGGED_IN env resp s))
              \<longrightarrow> queue (snd (on_PT_USER_LOGGED_IN env resp s)) = []"
      using extends_forEach_login [of s env resp "filter (\<lambda>ev. fst ev = ''login'') (events s)"]
        assms
      by (auto simp: on_PT_USER_LOGGED_IN_def extends_def)
    show ?thesis
      using True Data assms r d l by (simp add: listen_def showIframe_def hideIframe_def)
  qed
qed

subsection \<open>The concrete inputs, evaluated\<close>

lemma invoke_quiet: "invoke quiet c a s = (False, s\<lparr>log := log s @ [called c a]\<rparr>)"
  by (cases c) (simp_all add: invoke_def react_def quiet_def)

lemma invoke_strict_error:
  "invoke strict (Cb n) (Completion (Some err) resp) s
     = (True, s\<lparr>log := log s @ [Invoke (Cb n) (Some err) resp]\<rparr>)"
  by (simp add: invoke_def react_def strict_def)

lemma invoke_again:
  "invoke again (Cb n) a s
     = (False, enqueue (ex_request ''1'' ''personal_sign'') (Cb n)
                 (s\<lparr>log := log s @ [called (Cb n) a]\<rparr>))"
  by (simp add: invoke_def react_def again_def sendAsync_def)

lemma ex_pending_eq:
  "ex_pending = ex_provider
     \<lparr>requests := [''1'' \<mapsto> \<lparr>payload = ex_request ''1'' ''eth_accounts'', cb = Cb 1\<rparr>],
      iframeReady := True,
      log := [PostMessage PT_HANDLE_REQUEST (ex_request ''1'' ''eth_accounts''), Stored ''1'']\<rparr>"
  by (simp add: ex_pending_def ex_defs listen_def enqueue_def dequeue_eq store_def
      send_and_store_def)

lemma ex_backlog_eq:
  "ex_backlog = ex_provider
     \<lparr>requests := [''1'' \<mapsto> \<lparr>payload = ex_request ''1'' ''eth_accounts'', cb = Cb 1\<rparr>],
      queue := [\<lparr>payload = ex_request ''2'' ''net_version'', cb = Cb 2\<rparr>],
      log := [Invoke (Cb 1) (Some UserDenied) None,
              PostMessage PT_HANDLE_REQUEST (ex_request ''1'' ''eth_accounts''), Stored ''1'']\<rparr>"
  by (simp add: ex_backlog_def ex_defs listen_def enqueue_def dequeue_eq store_def
      send_and_store_def on_PT_USER_DENIED_def postMessages_defs forEach_denied_step
      forEach_denied_done invoke_quiet)

lemma ex_two_queued_eq:
  "ex_two_queued = ex_provider
     \<lparr>queue := [\<lparr>payload = ex_request ''1'' ''eth_accounts'', cb = Cb 1\<rparr>,
                \<lparr>payload = ex_request ''2'' ''net_version'', cb = Cb 2\<rparr>]\<rparr>"
  by (simp add: ex_two_queued_def enqueue_all_def enqueue_def ex_provider_def)

lemma ex_pending_response:
  "listen quiet (ex_event PT_RESPONSE (Some ex_accounts)) ex_pending
   = (None, ex_pending\<lparr>account := JStr ''0xabc'',
        log := log ex_pending @ [Invoke (Cb 1) None (Some ex_accounts)]\<rparr>)"
  by (simp add: ex_pending_eq ex_defs ex_accounts_def listen_def on_PT_RESPONSE_def
      postMessages_defs invoke_quiet dequeue_eq Let_def)

lemma ex_pending_response_again:
  "listen quiet (ex_event PT_RESPONSE (Some ex_accounts))
     (ex_pending\<lparr>account := JStr ''0xabc'',
        log := log ex_pending @ [Invoke (Cb 1) None (Some ex_accounts)]\<rparr>)
   = (None, ex_pending\<lparr>account := JStr ''0xabc'',
        log := log ex_pending
          @ [Invoke (Cb 1) None (Some ex_accounts), Invoke (Cb 1) None (Some ex_accounts)]\<rparr>)"
  by (simp add: ex_pending_eq ex_defs ex_accounts_def listen_def on_PT_RESPONSE_def
      postMessages_defs invoke_quiet dequeue_eq Let_def)


lemma ex_backlog_denied:
  "listen quiet (ex_event PT_USER_DENIED (Some (ex_response ''1'' JUndefined))) ex_backlog
   = (None, ex_backlog\<lparr>queue := [],
        requests := [''1'' \<mapsto> \<lparr>payload = ex_request ''1'' ''eth_accounts'', cb = Cb 1\<rparr>,
                     ''2'' \<mapsto> \<lparr>payload = ex_request ''2'' ''net_version'', cb = Cb 2\<rparr>],
        log := log ex_backlog @
          [Invoke (Cb 1) (Some UserDenied) None,
           PostMessage PT_HANDLE_REQUEST (ex_request ''2'' ''net_version''), Stored ''2'']\<rparr>)"
  by (simp add: ex_backlog_eq ex_defs listen_def on_PT_USER_DENIED_def postMessages_defs
      invoke_quiet dequeue_eq store_def send_and_store_def Let_def)

lemma ex_backlog_denied_strict:
  "listen strict (ex_event PT_USER_DENIED (Some (ex_response ''1'' JUndefined))) ex_backlog
   = (Some Thrown,
      ex_backlog\<lparr>log := log ex_backlog @ [Invoke (Cb 1) (Some UserDenied) None]\<rparr>)"
  by (simp add: ex_backlog_eq ex_defs listen_def on_PT_USER_DENIED_def postMessages_defs
      invoke_strict_error Let_def)

lemma ex_backlog_no_result:
  "listen quiet (ex_event PT_RESPONSE (Some (ex_response ''1'' JUndefined))) ex_backlog
   = (Some TypeError,
      ex_backlog\<lparr>log := log ex_backlog
         @ [Invoke (Cb 1) None (Some (ex_response ''1'' JUndefined))]\<rparr>)"
  by (simp add: ex_backlog_eq ex_defs listen_def on_PT_RESPONSE_def postMessages_defs
      invoke_quiet Let_def)

lemma ex_backlog_response:
  "listen quiet (ex_event PT_RESPONSE (Some ex_accounts)) ex_backlog
   = (None, ex_backlog\<lparr>queue := [],
        requests := [''1'' \<mapsto> \<lparr>payload = ex_request ''1'' ''eth_accounts'', cb = Cb 1\<rparr>,
                     ''2'' \<mapsto> \<lparr>payload = ex_request ''2'' ''net_version'', cb = Cb 2\<rparr>],
        account := JStr ''0xabc'',
        log := log ex_backlog @
          [Invoke (Cb 1) None (Some ex_accounts),
           PostMessage PT_HANDLE_REQUEST (ex_request ''2'' ''net_version''), Stored ''2'']\<rparr>)"
  by (simp add: ex_backlog_eq ex_defs ex_accounts_def listen_def on_PT_RESPONSE_def
      postMessages_defs invoke_quiet dequeue_eq store_def send_and_store_def Let_def)



text \<open>
  A callback that sends request 1 again while the frame is ready replaces the entry
  before the handler tests its method: the response to \<open>eth_accounts\<close> then sets no
  account.
\<close>

lemma ex_pending_resent:
  "listen again (ex_event PT_RESPONSE (Some ex_accounts)) ex_pending
   = (None, ex_pending
        \<lparr>requests := [''1'' \<mapsto> \<lparr>payload = ex_request ''1'' ''personal_sign'', cb = Cb 1\<rparr>],
         log := log ex_pending
           @ [Invoke (Cb 1) None (Some ex_accounts),
              PostMessage PT_HANDLE_REQUEST (ex_request ''1'' ''personal_sign''),
              Stored ''1'']\<rparr>)"
  by (simp add: ex_pending_eq ex_defs ex_accounts_def listen_def on_PT_RESPONSE_def
      postMessages_defs invoke_again enqueue_def dequeue_eq store_def send_and_store_def Let_def)

section \<open>Inbound messages\<close>

text \<open>
  C1 (as the code has it). A response whose id is not a key of \<open>requests\<close> changes
  nothing and calls no callback, but it is not ignored silently: reading \<open>cb\<close> of the
  missing entry throws a TypeError out of the handler, before anything else is done.
\<close>

theorem C1_unknown_id_throws:
  assumes "origin evt = portisClient s"
    and "data evt = Data PT_RESPONSE (Some r)"
    and "requests s (to_key (id_r r)) = None"
  shows "listen env evt s = (Some TypeError, s)"
  using assms by (simp add: listen_def on_PT_RESPONSE_def postMessages_defs)

theorem C1_unknown_id_throws_witness:
  "listen quiet (ex_event PT_RESPONSE (Some (ex_response ''1'' (JArr [])))) ex_provider
     = (Some TypeError, ex_provider)"
  using C1_unknown_id_throws [of "ex_event PT_RESPONSE (Some (ex_response ''1'' (JArr [])))"
      ex_provider "ex_response ''1'' (JArr [])" quiet]
  by (simp add: ex_defs)

text \<open>
  C1 as the specification words it, that such a response is a silent no-op, fails on
  the freshly built provider: id 1 is not pending, and the handler does not end
  normally.
\<close>

theorem C1_unknown_id_counterexample:
  "requests ex_provider (to_key (id_r (ex_response ''1'' (JArr [])))) = None
   \<and> listen quiet (ex_event PT_RESPONSE (Some (ex_response ''1'' (JArr [])))) ex_provider
       \<noteq> (None, ex_provider)"
  by (simp add: ex_defs listen_def on_PT_RESPONSE_def postMessages_defs)

text \<open>
  C5. Requests enqueued before the readiness signal are handed to the frame, when the
  signal arrives, in the order they were enqueued (after whatever was queued before
  them), and the log alternates: each item is sent and stored before the next one is
  taken from the queue.
\<close>

theorem C5_fifo_across_readiness:
  assumes "\<not> iframeReady s"
    and "origin evt = portisClient s"
    and "data evt = Data PT_GREEN_LIGHT resp"
  shows "listen env evt (enqueue_all xs s) =
           (None, s\<lparr>queue := [],
                    requests := fold store
                       (queue s @ map (\<lambda>x. \<lparr>payload = fst x, cb = snd x\<rparr>) xs) (requests s),
                    iframeReady := True,
                    log := log s @ concat (map send_and_store
                       (queue s @ map (\<lambda>x. \<lparr>payload = fst x, cb = snd x\<rparr>) xs))\<rparr>)"
  using assms by (simp add: enqueue_all_not_ready listen_def dequeue_eq)

theorem C5_fifo_across_readiness_witness:
  "log (snd (listen quiet (ex_event PT_GREEN_LIGHT None)
         (enqueue_all [(ex_request ''1'' ''eth_accounts'', Cb 1),
                       (ex_request ''2'' ''net_version'', Cb 2)]
            ex_provider)))
   = [PostMessage PT_HANDLE_REQUEST (ex_request ''1'' ''eth_accounts''), Stored ''1'',
      PostMessage PT_HANDLE_REQUEST (ex_request ''2'' ''net_version''), Stored ''2'']"
  using C5_fifo_across_readiness [of ex_provider "ex_event PT_GREEN_LIGHT None" None quiet
      "[(ex_request ''1'' ''eth_accounts'', Cb 1), (ex_request ''2'' ''net_version'', Cb 2)]"]
  by (simp add: ex_defs send_and_store_def)

text \<open>
  C6. A message whose origin is not the string \<open>portisClient\<close> is ignored whatever its
  type and payload: the provider is unchanged, nothing is logged, nothing is thrown.
\<close>

theorem C6_foreign_origin_ignored:
  "origin evt \<noteq> portisClient s \<Longrightarrow> listen env evt s = (None, s)"
  by (simp add: listen_def)

theorem C6_foreign_origin_ignored_witness:
  "listen strict \<lparr>origin = ''https://evil.app.portis.io'', data = Data PT_USER_DENIED None\<rparr>
     (enqueue (ex_request ''1'' ''eth_accounts'') (Cb 1) ex_provider)
   = (None, enqueue (ex_request ''1'' ''eth_accounts'') (Cb 1) ex_provider)"
  using C6_foreign_origin_ignored
    [of "\<lparr>origin = ''https://evil.app.portis.io'', data = Data PT_USER_DENIED None\<rparr>"
      "enqueue (ex_request ''1'' ''eth_accounts'') (Cb 1) ex_provider" strict]
  by (simp add: ex_defs enqueue_def)

section \<open>Pending requests\<close>

text \<open>
  C2 (as the code has it). \<open>requests\<close> holds at most one entry per key: after
  \<open>dequeue\<close> the entry under a key is the last queued item with that key, or the old
  entry when there is none. No message removes an entry: a key that is pending before a
  message is pending after it. A response for a pending key calls the callback stored
  under it, and no other, and so does a denial that carries a truthy id with that key,
  each time such a message arrives.
\<close>

theorem C2_entries_never_removed:
  "requests (dequeue s) k =
     (let its = filter (\<lambda>it. to_key (id_p (payload it)) = k) (queue s)
      in if its = [] then requests s k
         else Some \<lparr>payload = payload (last its), cb = cb (last its)\<rparr>)
   \<and> (requests s k \<noteq> None \<longrightarrow> requests (snd (listen env evt s)) k \<noteq> None)
   \<and> (origin evt = portisClient s \<and> data evt = Data PT_RESPONSE (Some r)
        \<and> requests s (to_key (id_r r)) = Some e
      \<longrightarrow> invoked (log (snd (listen env evt s)))
            = invoked (log s) @ [Invoke (cb e) None (Some r)])
   \<and> (origin evt = portisClient s \<and> data evt = Data PT_USER_DENIED (Some r)
        \<and> truthy (id_r r) \<and> requests s (to_key (id_r r)) = Some e
      \<longrightarrow> invoked (log (snd (listen env evt s)))
            = invoked (log s) @ [Invoke (cb e) (Some UserDenied) None])"
proof (intro conjI impI)
  show "requests (dequeue s) k =
     (let its = filter (\<lambda>it. to_key (id_p (payload it)) = k) (queue s)
      in if its = [] then requests s k
         else Some \<lparr>payload = payload (last its), cb = cb (last its)\<rparr>)"
    using fold_store_filter [of "queue s" "requests s" k] by (simp add: dequeue_eq)
next
  assume "requests s k \<noteq> None"
  then show "requests (snd (listen env evt s)) k \<noteq> None"
    using pending_listen [of s k env evt] by (simp add: pending_def)
next
  assume a: "origin evt = portisClient s \<and> data evt = Data PT_RESPONSE (Some r)
        \<and> requests s (to_key (id_r r)) = Some e"
  then have "listen env evt s = on_PT_RESPONSE env (Some r) s"
    by (simp add: listen_def postMessages_defs)
  with a show "invoked (log (snd (listen env evt s)))
            = invoked (log s) @ [Invoke (cb e) None (Some r)]"
    by (simp add: invoked_on_PT_RESPONSE)
next
  assume a: "origin evt = portisClient s \<and> data evt = Data PT_USER_DENIED (Some r)
        \<and> truthy (id_r r) \<and> requests s (to_key (id_r r)) = Some e"
  then have "listen env evt s = on_PT_USER_DENIED env (Some r) s"
    by (simp add: listen_def postMessages_defs)
  with a show "invoked (log (snd (listen env evt s)))
            = invoked (log s) @ [Invoke (cb e) (Some UserDenied) None]"
    by (simp add: invoked_on_PT_USER_DENIED)
qed

theorem C2_entries_never_removed_witness:
  "requests (snd (listen quiet (ex_event PT_RESPONSE (Some ex_accounts)) ex_pending)) ''1''
     \<noteq> None
   \<and> invoked (log (snd (listen quiet (ex_event PT_RESPONSE (Some ex_accounts)) ex_pending)))
       = [Invoke (Cb 1) None (Some ex_accounts)]
   \<and> requests (dequeue ex_two_queued) ''2''
       = Some \<lparr>payload = ex_request ''2'' ''net_version'', cb = Cb 2\<rparr>"
  using C2_entries_never_removed [where s = ex_pending and k = "''1''" and env = quiet
      and evt = "ex_event PT_RESPONSE (Some ex_accounts)" and r = ex_accounts
      and e = "\<lparr>payload = ex_request ''1'' ''eth_accounts'', cb = Cb 1\<rparr>"]
    C2_entries_never_removed [where s = ex_two_queued and k = "''2''"]
  by (simp add: ex_pending_eq ex_two_queued_eq ex_defs ex_accounts_def postMessages_defs)

text \<open>
  C2 as the specification words it, that an entry is removed on its first resolution
  and its callback runs at most once, fails: the same response delivered twice finds the
  entry both times and calls \<open>Cb 1\<close> twice.
\<close>

theorem C2_resolved_twice_counterexample:
  "requests (snd (listen quiet (ex_event PT_RESPONSE (Some ex_accounts)) ex_pending)) ''1''
     = Some \<lparr>payload = ex_request ''1'' ''eth_accounts'', cb = Cb 1\<rparr>
   \<and> invoked (log (snd (listen quiet (ex_event PT_RESPONSE (Some ex_accounts))
        (snd (listen quiet (ex_event PT_RESPONSE (Some ex_accounts)) ex_pending)))))
     = [Invoke (Cb 1) None (Some ex_accounts), Invoke (Cb 1) None (Some ex_accounts)]"
  apply (simp only: ex_pending_response snd_conv ex_pending_response_again)
  apply (simp add: ex_pending_eq)
  done

text \<open>
  C3 (as the code has it). A denial that carries a truthy id of a pending entry calls
  the callback of that entry, and no other completion callback, with the denial error,
  and removes nothing. If the callback returns, \<open>dequeue\<close> follows: the queue is not
  left alone, every queued item is sent, in order, and stored, and the queue is empty.
  If the callback throws, the handler ends there: while the frame is not ready nothing
  is sent and the queue keeps its items. For a callback that returns without calling
  the provider the outcome is given in full.
\<close>

theorem C3_denial_with_id:
  assumes "origin evt = portisClient s"
    and "data evt = Data PT_USER_DENIED (Some r)"
    and "truthy (id_r r)"
    and "requests s (to_key (id_r r)) = Some e"
  shows "invoked (log (snd (listen env evt s)))
           = invoked (log s) @ [Invoke (cb e) (Some UserDenied) None]
       \<and> (\<forall>k. requests s k \<noteq> None \<longrightarrow> requests (snd (listen env evt s)) k \<noteq> None)
       \<and> (\<not> throws (react env (cb e) denial s) \<longrightarrow>
            fst (listen env evt s) = None
            \<and> queue (snd (listen env evt s)) = []
            \<and> (\<exists>extra. posted (log (snd (listen env evt s)))
                  = posted (log s) @ map payload (queue s) @ extra)
            \<and> (\<forall>it \<in> set (queue s).
                  requests (snd (listen env evt s)) (to_key (id_p (payload it))) \<noteq> None))
       \<and> (throws (react env (cb e) denial s) \<longrightarrow>
            fst (listen env evt s) = Some Thrown
            \<and> (\<not> iframeReady s \<longrightarrow>
                  posted (log (snd (listen env evt s))) = posted (log s)
                  \<and> (\<exists>new. queue (snd (listen env evt s)) = queue s @ new)))
       \<and> (\<not> throws (react env (cb e) denial s) \<and> calls (react env (cb e) denial s) = [] \<longrightarrow>
            listen env evt s =
              (None, s\<lparr>queue := [],
                       requests := fold store (queue s) (requests s),
                       log := log s @ Invoke (cb e) (Some UserDenied) None
                                # concat (map send_and_store (queue s))\<rparr>))"
proof -
  have l: "listen env evt s = on_PT_USER_DENIED env (Some r) s"
    using assms(1,2) by (simp add: listen_def postMessages_defs)
  have f: "fst (on_PT_USER_DENIED env (Some r) s)
             = (if throws (react env (cb e) denial s) then Some Thrown else None)"
    using assms(3,4) fst_invoke [of env "cb e" denial s]
    by (cases "invoke env (cb e) (Completion (Some UserDenied) None) s")
       (auto simp: on_PT_USER_DENIED_def denial_def)
  have q: "\<not> throws (react env (cb e) denial s) \<and> calls (react env (cb e) denial s) = [] \<longrightarrow>
            on_PT_USER_DENIED env (Some r) s =
              (None, s\<lparr>queue := [],
                       requests := fold store (queue s) (requests s),
                       log := log s @ Invoke (cb e) (Some UserDenied) None
                                # concat (map send_and_store (queue s))\<rparr>)"
    using assms(3,4)
    by (simp add: on_PT_USER_DENIED_def invoke_def denial_def dequeue_eq)
  show ?thesis
    unfolding l
    using invoked_on_PT_USER_DENIED [OF assms(4,3), of env]
      on_PT_USER_DENIED_outcome [of env "Some r" s] f q
    by (cases "throws (react env (cb e) denial s)")
       (simp_all add: drained_def untouched_def pending_def)
qed

theorem C3_denial_with_id_witness:
  "listen quiet (ex_event PT_USER_DENIED (Some (ex_response ''1'' JUndefined))) ex_backlog =
     (None, ex_backlog\<lparr>queue := [],
        requests := [''1'' \<mapsto> \<lparr>payload = ex_request ''1'' ''eth_accounts'', cb = Cb 1\<rparr>,
                     ''2'' \<mapsto> \<lparr>payload = ex_request ''2'' ''net_version'', cb = Cb 2\<rparr>],
        log := log ex_backlog @
          [Invoke (Cb 1) (Some UserDenied) None,
           PostMessage PT_HANDLE_REQUEST (ex_request ''2'' ''net_version''), Stored ''2'']\<rparr>)
   \<and> fst (listen strict (ex_event PT_USER_DENIED (Some (ex_response ''1'' JUndefined)))
            ex_backlog) = Some Thrown
   \<and> posted (log (snd (listen strict
         (ex_event PT_USER_DENIED (Some (ex_response ''1'' JUndefined))) ex_backlog)))
       = posted (log ex_backlog)
   \<and> invoked (log (snd (listen strict
         (ex_event PT_USER_DENIED (Some (ex_response ''1'' JUndefined))) ex_backlog)))
       = invoked (log ex_backlog) @ [Invoke (Cb 1) (Some UserDenied) None]"
  using C3_denial_with_id [of "ex_event PT_USER_DENIED (Some (ex_response ''1'' JUndefined))"
      ex_backlog "ex_response ''1'' JUndefined"
      "\<lparr>payload = ex_request ''1'' ''eth_accounts'', cb = Cb 1\<rparr>" quiet]
    C3_denial_with_id [of "ex_event PT_USER_DENIED (Some (ex_response ''1'' JUndefined))"
      ex_backlog "ex_response ''1'' JUndefined"
      "\<lparr>payload = ex_request ''1'' ''eth_accounts'', cb = Cb 1\<rparr>" strict]
  by (simp add: ex_backlog_eq ex_defs store_def send_and_store_def react_def quiet_def
      strict_def denial_def)

text \<open>
  C3 as the specification words it, that queued items are neither transmitted nor
  moved, fails: with request 1 pending and request 2 queued, the denial of request 1
  sends request 2.
\<close>

theorem C3_queue_drained_counterexample:
  "queue ex_backlog = [\<lparr>payload = ex_request ''2'' ''net_version'', cb = Cb 2\<rparr>]
   \<and> queue (snd (listen quiet (ex_event PT_USER_DENIED (Some (ex_response ''1'' JUndefined)))
                    ex_backlog)) = []
   \<and> log (snd (listen quiet (ex_event PT_USER_DENIED (Some (ex_response ''1'' JUndefined)))
                    ex_backlog))
       = log ex_backlog @
          [Invoke (Cb 1) (Some UserDenied) None,
           PostMessage PT_HANDLE_REQUEST (ex_request ''2'' ''net_version''), Stored ''2'']"
  apply (simp only: ex_backlog_denied snd_conv)
  apply (simp add: ex_backlog_eq)
  done




section \<open>The synchronous path\<close>

text \<open>
  C7. \<open>send\<close> answers exactly four methods from the provider's own fields: the account as
  a one-element list (the empty list when the account is not truthy), the account, the
  network, and \<open>true\<close>, each in an object with the id and the \<open>jsonrpc\<close> of the request;
  only \<open>eth_uninstallFilter\<close> touches the provider, by enqueueing the request with the
  identity callback. Any other method throws, and the provider is as it was: nothing is
  enqueued or sent.
\<close>

theorem C7_send_allow_list:
  "(method_p p = ''eth_accounts'' \<longrightarrow>
      send p s = (Inr \<lparr>id_r = id_p p, jsonrpc_r = jsonrpc_p p,
                       result = (if truthy (account s) then JArr [account s] else JArr []),
                       address = JUndefined\<rparr>, s))
   \<and> (method_p p = ''eth_coinbase'' \<longrightarrow>
        send p s = (Inr \<lparr>id_r = id_p p, jsonrpc_r = jsonrpc_p p, result = account s,
                         address = JUndefined\<rparr>, s))
   \<and> (method_p p = ''net_version'' \<longrightarrow>
        send p s = (Inr \<lparr>id_r = id_p p, jsonrpc_r = jsonrpc_p p, result = network s,
                         address = JUndefined\<rparr>, s))
   \<and> (method_p p = ''eth_uninstallFilter'' \<longrightarrow>
        send p s = (Inr \<lparr>id_r = id_p p, jsonrpc_r = jsonrpc_p p, result = JBool True,
                         address = JUndefined\<rparr>, enqueue p Identity s))
   \<and> (method_p p \<notin> {''eth_accounts'', ''eth_coinbase'', ''net_version'', ''eth_uninstallFilter''}
        \<longrightarrow> send p s = (Inl (UnsupportedSync (method_p p)), s))"
  by (simp add: send_def reply_def sendAsync_def)

theorem C7_send_allow_list_witness:
  "send (ex_request ''5'' ''eth_accounts'')
        (ex_provider\<lparr>account := JStr ''0xabc'', network := JStr ''3''\<rparr>)
     = (Inr \<lparr>id_r = JNum ''5'', jsonrpc_r = JStr ''2.0'', result = JArr [JStr ''0xabc''],
             address = JUndefined\<rparr>,
        ex_provider\<lparr>account := JStr ''0xabc'', network := JStr ''3''\<rparr>)
   \<and> send (ex_request ''5'' ''eth_accounts'') ex_provider
     = (Inr \<lparr>id_r = JNum ''5'', jsonrpc_r = JStr ''2.0'', result = JArr [],
             address = JUndefined\<rparr>, ex_provider)
   \<and> send (ex_request ''6'' ''eth_coinbase'')
        (ex_provider\<lparr>account := JStr ''0xabc'', network := JStr ''3''\<rparr>)
     = (Inr \<lparr>id_r = JNum ''6'', jsonrpc_r = JStr ''2.0'', result = JStr ''0xabc'',
             address = JUndefined\<rparr>,
        ex_provider\<lparr>account := JStr ''0xabc'', network := JStr ''3''\<rparr>)
   \<and> send (ex_request ''7'' ''net_version'')
        (ex_provider\<lparr>account := JStr ''0xabc'', network := JStr ''3''\<rparr>)
     = (Inr \<lparr>id_r = JNum ''7'', jsonrpc_r = JStr ''2.0'', result = JStr ''3'',
             address = JUndefined\<rparr>,
        ex_provider\<lparr>account := JStr ''0xabc'', network := JStr ''3''\<rparr>)
   \<and> send (ex_request ''8'' ''eth_uninstallFilter'') ex_provider
     = (Inr \<lparr>id_r = JNum ''8'', jsonrpc_r = JStr ''2.0'', result = JBool True,
             address = JUndefined\<rparr>,
        ex_provider\<lparr>queue := [\<lparr>payload = ex_request ''8'' ''eth_uninstallFilter'',
                                cb = Identity\<rparr>]\<rparr>)
   \<and> send (ex_request ''9'' ''eth_sendTransaction'') ex_provider
     = (Inl (UnsupportedSync ''eth_sendTransaction''), ex_provider)"
  using C7_send_allow_list [of "ex_request ''5'' ''eth_accounts''"
      "ex_provider\<lparr>account := JStr ''0xabc'', network := JStr ''3''\<rparr>"]
    C7_send_allow_list [of "ex_request ''5'' ''eth_accounts''" ex_provider]
    C7_send_allow_list [of "ex_request ''6'' ''eth_coinbase''"
      "ex_provider\<lparr>account := JStr ''0xabc'', network := JStr ''3''\<rparr>"]
    C7_send_allow_list [of "ex_request ''7'' ''net_version''"
      "ex_provider\<lparr>account := JStr ''0xabc'', network := JStr ''3''\<rparr>"]
    C7_send_allow_list [of "ex_request ''8'' ''eth_uninstallFilter''" ex_provider]
    C7_send_allow_list [of "ex_request ''9'' ''eth_sendTransaction''" ex_provider]
  by (simp add: ex_request_def ex_provider_def enqueue_def)

section \<open>The constructor\<close>

text \<open>
  C8. The constructor throws exactly when both \<open>infuraApiKey\<close> and \<open>providerNodeUrl\<close> are
  given, or \<open>apiKey\<close> is not given and the page is not on localhost (given: present and
  not the empty string). When it throws the page is untouched: no frame was created and
  none is waiting for the load event. When it does not throw, one frame is.
\<close>

theorem C8_constructor_throws:
  "(isl (fst (constructor os pg)) \<longleftrightarrow>
      (provided (infuraApiKey os) \<and> provided (providerNodeUrl os))
      \<or> (\<not> provided (apiKey os) \<and> \<not> isLocalhost pg))
   \<and> (isl (fst (constructor os pg)) \<longrightarrow> snd (constructor os pg) = pg)
   \<and> (\<not> isl (fst (constructor os pg)) \<longrightarrow>
        length (frames (snd (constructor os pg)))
          + length (load_listeners (snd (constructor os pg)))
        = Suc (length (frames pg) + length (load_listeners pg)))"
  by (auto simp: constructor_def Let_def createIframe_def)

theorem C8_constructor_throws_witness:
  "constructor ex_opts_both ex_page = (Inl BothNodeOptions, ex_page)
   \<and> constructor ex_opts_nokey ex_page = (Inl ApiKeyMissing, ex_page)
   \<and> \<not> isl (fst (constructor ex_opts_nokey (ex_page\<lparr>isLocalhost := True\<rparr>)))
   \<and> fst (constructor ex_opts ex_page) = Inr ex_provider
   \<and> frames (snd (constructor ex_opts ex_page))
       = [(''https://app.portis.io'', referrerAppOptions ex_provider)]"
  using C8_constructor_throws [of ex_opts_both ex_page]
    C8_constructor_throws [of ex_opts_nokey ex_page]
    C8_constructor_throws [of ex_opts_nokey "ex_page\<lparr>isLocalhost := True\<rparr>"]
    C8_constructor_throws [of ex_opts ex_page]
  by (simp add: constructor_def ex_opts_both_def ex_opts_nokey_def ex_defs provided_def
      Let_def createIframe_def sdkVersion_def)

section \<open>The session fields\<close>




section \<open>Draining without a readiness check\<close>

text \<open>
  C10 (as the code has it). \<open>dequeue\<close> does not look at \<open>iframeReady\<close>: whenever the
  handler of a response or of a denial ends normally, the whole queue has been taken,
  sent in order and stored, whatever the flag is, and the flag is not changed. When
  the handler throws, it has not reached \<open>dequeue\<close>: while the frame is not ready,
  nothing is sent and the queue keeps its items. Only \<open>enqueue\<close> looks at the flag: it
  drains when the flag is set and only appends when it is not.
\<close>

theorem C10_drain_ignores_readiness:
  assumes "origin evt = portisClient s"
    and "data evt = Data m resp"
    and "m = PT_RESPONSE \<or> m = PT_USER_DENIED"
  shows "(fst (listen env evt s) = None \<longrightarrow>
            queue (snd (listen env evt s)) = []
            \<and> (\<exists>extra. posted (log (snd (listen env evt s)))
                  = posted (log s) @ map payload (queue s) @ extra)
            \<and> (\<forall>it \<in> set (queue s).
                  requests (snd (listen env evt s)) (to_key (id_p (payload it))) \<noteq> None)
            \<and> iframeReady (snd (listen env evt s)) = iframeReady s)
       \<and> (fst (listen env evt s) \<noteq> None \<and> \<not> iframeReady s \<longrightarrow>
            posted (log (snd (listen env evt s))) = posted (log s)
            \<and> (\<exists>new. queue (snd (listen env evt s)) = queue s @ new))
       \<and> (\<not> iframeReady s \<longrightarrow>
            enqueue p c s = s\<lparr>queue := queue s @ [\<lparr>payload = p, cb = c\<rparr>]\<rparr>)
       \<and> (iframeReady s \<longrightarrow>
            enqueue p c s = dequeue (s\<lparr>queue := queue s @ [\<lparr>payload = p, cb = c\<rparr>]\<rparr>))"
proof -
  have "(fst (listen env evt s) = None \<longrightarrow> drained s (snd (listen env evt s)))
      \<and> (fst (listen env evt s) \<noteq> None \<longrightarrow> untouched s (snd (listen env evt s)))"
    using assms(3)
  proof
    assume "m = PT_RESPONSE"
    then have "listen env evt s = on_PT_RESPONSE env resp s"
      using assms(1,2) by (simp add: listen_def postMessages_defs)
    then show ?thesis using on_PT_RESPONSE_outcome [of env resp s] by simp
  next
    assume "m = PT_USER_DENIED"
    then have "listen env evt s = on_PT_USER_DENIED env resp s"
      using assms(1,2) by (simp add: listen_def postMessages_defs)
    then show ?thesis using on_PT_USER_DENIED_outcome [of env resp s] by simp
  qed
  then show ?thesis
    by (simp add: drained_def untouched_def pending_def enqueue_def Let_def)
qed

theorem C10_drain_ignores_readiness_witness:
  "\<not> iframeReady ex_backlog
   \<and> queue ex_backlog = [\<lparr>payload = ex_request ''2'' ''net_version'', cb = Cb 2\<rparr>]
   \<and> fst (listen quiet (ex_event PT_RESPONSE (Some ex_accounts)) ex_backlog) = None
   \<and> queue (snd (listen quiet (ex_event PT_RESPONSE (Some ex_accounts)) ex_backlog)) = []
   \<and> posted (log (snd (listen quiet (ex_event PT_RESPONSE (Some ex_accounts)) ex_backlog)))
       = posted (log ex_backlog) @ [ex_request ''2'' ''net_version'']
   \<and> \<not> iframeReady (snd (listen quiet (ex_event PT_RESPONSE (Some ex_accounts)) ex_backlog))
   \<and> queue (enqueue (ex_request ''3'' ''eth_accounts'') (Cb 3) ex_backlog)
       = [\<lparr>payload = ex_request ''2'' ''net_version'', cb = Cb 2\<rparr>,
          \<lparr>payload = ex_request ''3'' ''eth_accounts'', cb = Cb 3\<rparr>]"
  using C10_drain_ignores_readiness [of "ex_event PT_RESPONSE (Some ex_accounts)" ex_backlog
      PT_RESPONSE "Some ex_accounts" quiet "ex_request ''3'' ''eth_accounts''" "Cb 3"]
    ex_backlog_response
  by (simp add: ex_backlog_eq ex_defs)

text \<open>
  C10 as the specification words it, that every response or denial drains the queue,
  fails: a response without a result for the pending \<open>eth_accounts\<close> calls the callback
  and then throws on \<open>result[0]\<close>; request 2 stays in the queue and is not sent.
\<close>

theorem C10_handler_throws_counterexample:
  "\<not> iframeReady ex_backlog
   \<and> requests ex_backlog (to_key (id_r (ex_response ''1'' JUndefined)))
       = Some \<lparr>payload = ex_request ''1'' ''eth_accounts'', cb = Cb 1\<rparr>
   \<and> queue ex_backlog = [\<lparr>payload = ex_request ''2'' ''net_version'', cb = Cb 2\<rparr>]
   \<and> fst (listen quiet (ex_event PT_RESPONSE (Some (ex_response ''1'' JUndefined))) ex_backlog)
       = Some TypeError
   \<and> queue (snd (listen quiet (ex_event PT_RESPONSE (Some (ex_response ''1'' JUndefined)))
                    ex_backlog)) = queue ex_backlog
   \<and> posted (log (snd (listen quiet (ex_event PT_RESPONSE (Some (ex_response ''1'' JUndefined)))
                    ex_backlog))) = posted (log ex_backlog)"
  apply (simp only: ex_backlog_no_result snd_conv fst_conv)
  apply (simp add: ex_backlog_eq ex_defs)
  done

end
